theory Spec2Isabelle
  imports Main "HOL-Library.Word" "HOL-Library.Stream" "HOL-Library.Monad_Syntax"
begin

section \<open>The relay loop of \<^verbatim>\<open>src/tools/simple_pipe.c\<close>\<close>

text \<open>
  \<^verbatim>\<open>simple_pipe.c\<close> is one function, \<^verbatim>\<open>main\<close>: an endless loop that reads one
  \<^verbatim>\<open>struct input_event\<close> from standard input, prints a line about it on standard error
  and writes the same bytes to standard output.  Everything the claims say is about how
  this loop reacts to the results of \<^verbatim>\<open>read(2)\<close> and \<^verbatim>\<open>write(2)\<close>, so the embedding has
  three layers:

  \<^item> the \<^emph>\<open>world\<close>: what the two system calls are going to answer (one infinite stream
    of results per file descriptor), and what the process has done so far (the bytes it
    transmitted on standard output, the lines it printed on standard error, and the list
    of calls it issued, in order);
  \<^item> the three calls the program makes, as functions on the world;
  \<^item> the two loops of \<^verbatim>\<open>main\<close>, translated line by line.  Both loops may run forever
    (a call that keeps failing with \<^verbatim>\<open>EINTR\<close> is retried without bound), so both are
    partial functions into \<open>option\<close>: \<open>None\<close> is "never returns".
\<close>

subsection \<open>Data\<close>

type_synonym byte = "8 word"

text \<open>
  \<^verbatim>\<open>errno\<close> after a failed call.  The program only compares it with \<^verbatim>\<open>EINTR\<close> and
  \<^verbatim>\<open>EPIPE\<close>; every other value is carried along for \<^verbatim>\<open>perror\<close>.
\<close>

datatype errno = EINTR | EPIPE | Other_errno nat

text \<open>
  The answer of one \<^verbatim>\<open>read\<close> call: \<^verbatim>\<open>-1\<close> with an \<^verbatim>\<open>errno\<close>, or the bytes the kernel
  has for the caller (none at end of file).  The answer of one \<^verbatim>\<open>write\<close> call: \<^verbatim>\<open>-1\<close>
  with an \<^verbatim>\<open>errno\<close> (nothing transmitted), or the number of bytes the kernel is ready to
  take.  As POSIX specifies, a \<^verbatim>\<open>write\<close> that a signal interrupts after it has moved some
  bytes reports that short count, and \<^verbatim>\<open>EINTR\<close> only when it has moved none.  A write
  answers \<^verbatim>\<open>EPIPE\<close> when the reader is gone and \<^verbatim>\<open>SIGPIPE\<close> is ignored or blocked; with
  the default disposition the signal ends the process inside the call, and the program
  never sees an answer.
\<close>

datatype rd_outcome = RdErr errno | RdRet "byte list"

datatype wr_outcome = WrErr errno | WrRet nat

text \<open>
  The lines the program can print on standard error, one constructor per \<^verbatim>\<open>fprintf\<close> or
  \<^verbatim>\<open>perror\<close> call of the source (each prints exactly one line; the text itself is not
  modelled, the values printed in it are).
\<close>

datatype diag =
    Read_event int int int int int  \<comment> \<open>line 34: seconds, microseconds, type, code, value\<close>
  | Err_reading errno               \<comment> \<open>line 25: \<^verbatim>\<open>perror("Error reading from stdin")\<close>\<close>
  | Partial_read nat                \<comment> \<open>line 29\<close>
  | Pipe_broken                     \<comment> \<open>line 45\<close>
  | Pipe_broken_retry               \<comment> \<open>line 57\<close>
  | Err_writing_retry errno         \<comment> \<open>line 60\<close>
  | Err_writing errno               \<comment> \<open>line 68\<close>
  | Partial_write nat               \<comment> \<open>line 73\<close>

text \<open>
  The calls the process issues, in the order it issues them: a read request for a number
  of bytes, a line on standard error, a write request for \<open>count\<close> bytes starting at an
  offset into the event buffer.
\<close>

datatype op = Op_read nat | Op_log | Op_write nat nat

record world =
  stdin_res :: "rd_outcome stream"   \<comment> \<open>answers of the coming reads of descriptor 0\<close>
  stdout_res :: "wr_outcome stream"  \<comment> \<open>answers of the coming writes of descriptor 1\<close>
  out_bytes :: "byte list"           \<comment> \<open>what has been transmitted on descriptor 1\<close>
  err_lines :: "diag list"           \<comment> \<open>what has been printed on descriptor 2\<close>
  ops :: "op list"                   \<comment> \<open>the calls issued so far\<close>

subsection \<open>The event structure\<close>

text \<open>
  Modelled from the spec: the size of \<^verbatim>\<open>struct input_event\<close>.  The structure is declared
  in \<^verbatim>\<open><linux/input.h>\<close>, which is not part of the repository.  The spec describes it as
  a timestamp (seconds and microseconds), a 16-bit type, a 16-bit code and a 32-bit signed
  value; on the 64-bit Linux targets of the tool the two timestamp fields are 64-bit, which
  makes 24 bytes with no padding.  Apart from the concrete examples, the proofs below use
  of this number only that it is not zero.
\<close>

definition event_size :: nat where
  "event_size = 24"

text \<open>
  Modelled from the spec: the fields of \<^verbatim>\<open>struct input_event\<close>, in the order and with the
  widths just described, each stored least significant byte first.
\<close>

record input_event =
  tv_sec :: "64 word"
  tv_usec :: "64 word"
  ev_type :: "16 word"
  ev_code :: "16 word"
  ev_value :: "32 word"

definition le_word :: "byte list \<Rightarrow> 'a::len word" where
  "le_word bs = word_of_nat (foldr (\<lambda>b n. unat b + 256 * n) bs 0)"

definition event_of_bytes :: "byte list \<Rightarrow> input_event" where
  "event_of_bytes bs =
     \<lparr>tv_sec = le_word (take 8 bs),
      tv_usec = le_word (take 8 (drop 8 bs)),
      ev_type = le_word (take 2 (drop 16 bs)),
      ev_code = le_word (take 2 (drop 18 bs)),
      ev_value = le_word (take 4 (drop 20 bs))\<rparr>"

text \<open>
  Lines 34 to 36: the timestamp fields are cast to \<^verbatim>\<open>long\<close>, the two unsigned 16-bit
  fields are promoted to \<^verbatim>\<open>int\<close>, the value is a signed 32-bit integer.
\<close>

definition read_event_line :: "byte list \<Rightarrow> diag" where
  "read_event_line ev =
     (let e = event_of_bytes ev
      in Read_event (sint (tv_sec e)) (sint (tv_usec e))
           (uint (ev_type e)) (uint (ev_code e)) (sint (ev_value e)))"

subsection \<open>The three calls\<close>

text \<open>
  \<^verbatim>\<open>read(STDIN_FILENO, &ev, count)\<close>: takes the next answer; the kernel never hands over
  more than \<open>count\<close> bytes.
\<close>

definition sys_read :: "nat \<Rightarrow> world \<Rightarrow> (errno + byte list) \<times> world" where
  "sys_read count w =
     (case shd (stdin_res w) of
        RdErr e \<Rightarrow> Inl e
      | RdRet bs \<Rightarrow> Inr (take count bs),
      w\<lparr>stdin_res := stl (stdin_res w), ops := ops w @ [Op_read count]\<rparr>)"

text \<open>
  The bytes of a read land at the start of the buffer \<^verbatim>\<open>ev\<close>; what the read did not
  reach keeps its old content.
\<close>

definition store :: "byte list \<Rightarrow> byte list \<Rightarrow> byte list" where
  "store ev bs = take event_size (bs @ drop (length bs) ev)"

text \<open>
  \<^verbatim>\<open>write(STDOUT_FILENO, ((char*)&ev) + off, count)\<close>: takes the next answer; the kernel
  never takes more than \<open>count\<close> bytes, and what it takes is transmitted.
\<close>

definition sys_write :: "byte list \<Rightarrow> nat \<Rightarrow> nat \<Rightarrow> world \<Rightarrow> (errno + nat) \<times> world" where
  "sys_write ev off count w =
     (let w' = w\<lparr>stdout_res := stl (stdout_res w), ops := ops w @ [Op_write off count]\<rparr>
      in case shd (stdout_res w) of
           WrErr e \<Rightarrow> (Inl e, w')
         | WrRet n \<Rightarrow>
             (Inr (min n count),
              w'\<lparr>out_bytes := out_bytes w @ take (min n count) (drop off ev)\<rparr>))"

text \<open>\<^verbatim>\<open>fprintf(stderr, ...)\<close> and \<^verbatim>\<open>perror(...)\<close>; the program ignores their results.\<close>

definition log_line :: "diag \<Rightarrow> world \<Rightarrow> world" where
  "log_line d w = w\<lparr>err_lines := err_lines w @ [d], ops := ops w @ [Op_log]\<rparr>"

subsection \<open>The program\<close>

text \<open>
  Lines 50 to 65, the loop entered when the first write of an event failed with
  \<^verbatim>\<open>EINTR\<close>.  It leaves in three ways: the condition of the \<^verbatim>\<open>while\<close> fails (then line 66
  continues the outer loop), \<^verbatim>\<open>goto end_loop\<close> on \<^verbatim>\<open>EPIPE\<close>, or \<^verbatim>\<open>return 1\<close>.
\<close>

datatype retry_exit = Retry_done | Goto_end_loop | Return_1

partial_function (option) write_retry ::
  "byte list \<Rightarrow> nat \<Rightarrow> world \<Rightarrow> (retry_exit \<times> world) option" where
  "write_retry ev total_written w =
     (if total_written < event_size then
        (case sys_write ev total_written (event_size - total_written) w of
           (Inl e, w') \<Rightarrow>
             if e = EINTR then write_retry ev total_written w'
             else if e = EPIPE then Some (Goto_end_loop, log_line Pipe_broken_retry w')
             else Some (Return_1, log_line (Err_writing_retry e) w')
         | (Inr bytes_written, w') \<Rightarrow>
             write_retry ev (total_written + bytes_written) w')
      else Some (Retry_done, w))"

text \<open>
  Lines 13 to 77, the outer loop, from its head.  The result is the exit status of the
  process and the world it leaves.
\<close>

partial_function (option) relay_loop :: "byte list \<Rightarrow> world \<Rightarrow> (int \<times> world) option" where
  "relay_loop ev w =
     (case sys_read event_size w of
        (Inl e, w1) \<Rightarrow>
          if e = EINTR then relay_loop ev w1
          else Some (1, log_line (Err_reading e) w1)
      | (Inr bs, w1) \<Rightarrow>
          if length bs = 0 then Some (0, w1)
          else if length bs < event_size then
            Some (1, log_line (Partial_read (length bs)) w1)
          else
            let ev' = store ev bs;
                w2 = log_line (read_event_line ev') w1
            in (case sys_write ev' 0 event_size w2 of
                  (Inl e, w3) \<Rightarrow>
                    if e = EPIPE then Some (0, log_line Pipe_broken w3)
                    else if e = EINTR then
                      do {
                        (x, w4) \<leftarrow> write_retry ev' 0 w3;
                        case x of
                          Retry_done \<Rightarrow> relay_loop ev' w4
                        | Goto_end_loop \<Rightarrow> Some (0, w4)
                        | Return_1 \<Rightarrow> Some (1, w4)
                      }
                    else Some (1, log_line (Err_writing e) w3)
                | (Inr bytes_written, w3) \<Rightarrow>
                    if bytes_written < event_size then
                      Some (1, log_line (Partial_write bytes_written) w3)
                    else relay_loop ev' w3))"

text \<open>
  \<^verbatim>\<open>main\<close>: the buffer \<^verbatim>\<open>ev\<close> is an uninitialised local variable, so its first content
  is a parameter.
\<close>

definition main :: "byte list \<Rightarrow> world \<Rightarrow> (int \<times> world) option" where
  "main ev0 w = relay_loop ev0 w"

subsection \<open>Describing what the environment answers\<close>

text \<open>
  The retry loop keeps going through a list of write answers as long as each of them is
  \<^verbatim>\<open>EINTR\<close> or a byte count and the cumulative count is below the size of the event.
  \<open>retry_run k xs\<close> is the count reached when the loop, entered with count \<open>k\<close>, has
  consumed all of \<open>xs\<close> without leaving before; \<open>retry_ops k xs\<close> lists the write
  requests it issues on the way.
\<close>

fun retry_run :: "nat \<Rightarrow> wr_outcome list \<Rightarrow> nat option" where
  "retry_run k [] = Some k"
| "retry_run k (WrErr e # xs) =
     (if k < event_size \<and> e = EINTR then retry_run k xs else None)"
| "retry_run k (WrRet n # xs) =
     (if k < event_size then retry_run (k + min n (event_size - k)) xs else None)"

fun retry_ops :: "nat \<Rightarrow> wr_outcome list \<Rightarrow> op list" where
  "retry_ops k [] = []"
| "retry_ops k (WrErr e # xs) = Op_write k (event_size - k) # retry_ops k xs"
| "retry_ops k (WrRet n # xs) =
     Op_write k (event_size - k) # retry_ops (k + min n (event_size - k)) xs"

text \<open>
  A write answer lets the retry loop advance or leave when it is an error other than
  \<^verbatim>\<open>EINTR\<close> or a count of at least one byte.
\<close>

fun makes_progress :: "wr_outcome \<Rightarrow> bool" where
  "makes_progress (WrErr e) = (e \<noteq> EINTR)"
| "makes_progress (WrRet n) = (0 < n)"

text \<open>
  How one event gets through: the reads that fail with \<^verbatim>\<open>EINTR\<close> before the read that
  delivers it, its bytes, and whether its first write takes it whole or fails with
  \<^verbatim>\<open>EINTR\<close> and is followed by the given answers to the retry loop.
\<close>

datatype wr_path = Direct | Retried "wr_outcome list"

record delivery =
  intr_reads :: nat
  payload :: "byte list"
  wr_path :: wr_path

definition delivery_reads :: "delivery \<Rightarrow> rd_outcome list" where
  "delivery_reads d = replicate (intr_reads d) (RdErr EINTR) @ [RdRet (payload d)]"

definition delivery_writes :: "delivery \<Rightarrow> wr_outcome list" where
  "delivery_writes d =
     (case wr_path d of Direct \<Rightarrow> [WrRet event_size] | Retried xs \<Rightarrow> WrErr EINTR # xs)"

definition delivery_ops :: "delivery \<Rightarrow> op list" where
  "delivery_ops d =
     replicate (intr_reads d) (Op_read event_size)
     @ [Op_read event_size, Op_log, Op_write 0 event_size]
     @ (case wr_path d of Direct \<Rightarrow> [] | Retried xs \<Rightarrow> retry_ops 0 xs)"

definition delivery_ok :: "delivery \<Rightarrow> bool" where
  "delivery_ok d \<longleftrightarrow>
     length (payload d) = event_size \<and>
     (case wr_path d of Direct \<Rightarrow> True | Retried xs \<Rightarrow> retry_run 0 xs = Some event_size)"

text \<open>
  The delivery that meets no fault at all: no interrupted read, and a first write that
  takes the whole event.  \<open>plain_ops\<close> are the calls of such an iteration.
\<close>

definition plain :: "byte list \<Rightarrow> delivery" where
  "plain r = \<lparr>intr_reads = 0, payload = r, wr_path = Direct\<rparr>"

definition plain_ops :: "op list" where
  "plain_ops = [Op_read event_size, Op_log, Op_write 0 event_size]"

text \<open>
  A read request is well formed when it asks for a full event, a write request when it asks
  for all the bytes from its offset to the end of the event.
\<close>

fun full_request :: "op \<Rightarrow> bool" where
  "full_request (Op_read n) = (n = event_size)"
| "full_request Op_log = True"
| "full_request (Op_write off n) = (off + n = event_size)"

text \<open>
  The world at the start of the process: nothing transmitted or printed yet.  The reads
  answer \<open>rs\<close> and then report end of file; the writes answer \<open>ws\<close> and then take
  whatever they are given.
\<close>

definition start_world :: "rd_outcome list \<Rightarrow> wr_outcome list \<Rightarrow> world" where
  "start_world rs ws =
     \<lparr>stdin_res = rs @- sconst (RdRet []),
      stdout_res = ws @- sconst (WrRet event_size),
      out_bytes = [], err_lines = [], ops = []\<rparr>"

text \<open>Two sample events: the bytes 1 to 24, and 24 bytes \<open>0xFF\<close>.\<close>

definition sample_a :: "byte list" where
  "sample_a = [1, 2, 3, 4, 5, 6, 7, 8, 9, 10, 11, 12, 13, 14, 15, 16,
               17, 18, 19, 20, 21, 22, 23, 24]"

definition sample_b :: "byte list" where
  "sample_b = [255, 255, 255, 255, 255, 255, 255, 255, 255, 255, 255, 255, 255, 255, 255, 255,
               255, 255, 255, 255, 255, 255, 255, 255]"

section \<open>Single steps of the two loops\<close>

lemma event_size_pos [simp]: "0 < event_size"
  by (simp add: event_size_def)

lemma event_size_neq0 [simp]: "event_size \<noteq> 0"
  by (simp add: event_size_def)

lemma store_full: "length bs = event_size \<Longrightarrow> store ev bs = bs"
  by (simp add: store_def)

text \<open>
  One step of the outer loop from its head, for each answer the next read and the next
  write can give.
\<close>

lemma relay_read_eintr:
  "shd (stdin_res w) = RdErr EINTR \<Longrightarrow>
   relay_loop ev w =
     relay_loop ev (w\<lparr>stdin_res := stl (stdin_res w), ops := ops w @ [Op_read event_size]\<rparr>)"
  by (cases w, subst relay_loop.simps) (simp add: sys_read_def)


lemma relay_eof:
  "shd (stdin_res w) = RdRet [] \<Longrightarrow>
   relay_loop ev w =
     Some (0, w\<lparr>stdin_res := stl (stdin_res w), ops := ops w @ [Op_read event_size]\<rparr>)"
  by (cases w, subst relay_loop.simps) (simp add: sys_read_def)

lemma relay_short_read:
  "shd (stdin_res w) = RdRet bs \<Longrightarrow> 0 < length bs \<Longrightarrow> length bs < event_size \<Longrightarrow>
   relay_loop ev w =
     Some (1, w\<lparr>stdin_res := stl (stdin_res w),
                err_lines := err_lines w @ [Partial_read (length bs)],
                ops := ops w @ [Op_read event_size, Op_log]\<rparr>)"
  by (cases w, subst relay_loop.simps) (simp add: sys_read_def log_line_def)

lemma relay_write_full:
  "shd (stdin_res w) = RdRet r \<Longrightarrow> length r = event_size \<Longrightarrow>
   shd (stdout_res w) = WrRet n \<Longrightarrow> event_size \<le> n \<Longrightarrow>
   relay_loop ev w =
     relay_loop r (w\<lparr>stdin_res := stl (stdin_res w), stdout_res := stl (stdout_res w),
                     out_bytes := out_bytes w @ r,
                     err_lines := err_lines w @ [read_event_line r],
                     ops := ops w @ [Op_read event_size, Op_log, Op_write 0 event_size]\<rparr>)"
  by (cases w, subst relay_loop.simps) (simp add: sys_read_def sys_write_def log_line_def store_full Let_def)

lemma relay_write_short:
  "shd (stdin_res w) = RdRet r \<Longrightarrow> length r = event_size \<Longrightarrow>
   shd (stdout_res w) = WrRet n \<Longrightarrow> n < event_size \<Longrightarrow>
   relay_loop ev w =
     Some (1, w\<lparr>stdin_res := stl (stdin_res w), stdout_res := stl (stdout_res w),
                     out_bytes := out_bytes w @ take n r,
                     err_lines := err_lines w @ [read_event_line r, Partial_write n],
                     ops := ops w @ [Op_read event_size, Op_log, Op_write 0 event_size, Op_log]\<rparr>)"
  by (cases w, subst relay_loop.simps) (simp add: sys_read_def sys_write_def log_line_def store_full Let_def)

lemma relay_write_epipe:
  "shd (stdin_res w) = RdRet r \<Longrightarrow> length r = event_size \<Longrightarrow>
   shd (stdout_res w) = WrErr EPIPE \<Longrightarrow>
   relay_loop ev w =
     Some (0, w\<lparr>stdin_res := stl (stdin_res w), stdout_res := stl (stdout_res w),
                     err_lines := err_lines w @ [read_event_line r, Pipe_broken],
                     ops := ops w @ [Op_read event_size, Op_log, Op_write 0 event_size, Op_log]\<rparr>)"
  by (cases w, subst relay_loop.simps) (simp add: sys_read_def sys_write_def log_line_def store_full Let_def)


lemma relay_write_eintr:
  "shd (stdin_res w) = RdRet r \<Longrightarrow> length r = event_size \<Longrightarrow>
   shd (stdout_res w) = WrErr EINTR \<Longrightarrow>
   relay_loop ev w =
     (case write_retry r 0 (w\<lparr>stdin_res := stl (stdin_res w), stdout_res := stl (stdout_res w),
                     err_lines := err_lines w @ [read_event_line r],
                     ops := ops w @ [Op_read event_size, Op_log, Op_write 0 event_size]\<rparr>) of
        None \<Rightarrow> None
      | Some (Retry_done, w4) \<Rightarrow> relay_loop r w4
      | Some (Goto_end_loop, w4) \<Rightarrow> Some (0, w4)
      | Some (Return_1, w4) \<Rightarrow> Some (1, w4))"
  by (cases w, subst relay_loop.simps)
     (simp add: sys_read_def sys_write_def log_line_def store_full Let_def split: option.splits)

subsection \<open>The retry loop over a list of answers\<close>

lemma retry_run_mono: "retry_run k xs = Some k' \<Longrightarrow> k \<le> k'"
  by (induction k xs rule: retry_run.induct) (auto split: if_splits)

lemma write_retry_prefix:
  "retry_run k xs = Some k' \<Longrightarrow> stdout_res w = xs @- s \<Longrightarrow>
   write_retry ev k w =
     write_retry ev k' (w\<lparr>stdout_res := s,
                          out_bytes := out_bytes w @ take (k' - k) (drop k ev),
                          ops := ops w @ retry_ops k xs\<rparr>)"
proof (induction k xs arbitrary: w rule: retry_run.induct)
  case (1 k)
  then show ?case by (cases w) simp
next
  case (2 k e xs)
  then have k: "k < event_size" and e: "e = EINTR" and run: "retry_run k xs = Some k'"
    by (auto split: if_splits)
  let ?w = "w\<lparr>stdout_res := xs @- s, ops := ops w @ [Op_write k (event_size - k)]\<rparr>"
  have "write_retry ev k w = write_retry ev k ?w"
    using k e "2.prems"(2) by (cases w, subst write_retry.simps) (simp add: sys_write_def)
  also have "\<dots> = write_retry ev k' (?w\<lparr>stdout_res := s,
                          out_bytes := out_bytes ?w @ take (k' - k) (drop k ev),
                          ops := ops ?w @ retry_ops k xs\<rparr>)"
    using k e run by (intro "2.IH") simp_all
  finally show ?case by simp
next
  case (3 k n xs)
  then have k: "k < event_size" and run: "retry_run (k + min n (event_size - k)) xs = Some k'"
    by (auto split: if_splits)
  let ?m = "min n (event_size - k)"
  let ?w = "w\<lparr>stdout_res := xs @- s, ops := ops w @ [Op_write k (event_size - k)],
              out_bytes := out_bytes w @ take ?m (drop k ev)\<rparr>"
  have le: "k + ?m \<le> k'" using run by (rule retry_run_mono)
  have "write_retry ev k w = write_retry ev (k + ?m) ?w"
    using k "3.prems"(2) by (cases w, subst write_retry.simps) (simp add: sys_write_def)
  also have "\<dots> = write_retry ev k' (?w\<lparr>stdout_res := s,
                          out_bytes := out_bytes ?w @ take (k' - (k + ?m)) (drop (k + ?m) ev),
                          ops := ops ?w @ retry_ops (k + ?m) xs\<rparr>)"
    using k run by (intro "3.IH") simp_all
  finally have run_eq: "write_retry ev k w = write_retry ev k' (?w\<lparr>stdout_res := s,
                          out_bytes := out_bytes ?w @ take (k' - (k + ?m)) (drop (k + ?m) ev),
                          ops := ops ?w @ retry_ops (k + ?m) xs\<rparr>)" .
  have "k' - k = ?m + (k' - (k + ?m))" using le by simp
  then have slice: "take ?m (drop k ev) @ take (k' - (k + ?m)) (drop (k + ?m) ev)
      = take (k' - k) (drop k ev)"
    by (metis take_add drop_drop add.commute)
  show ?case unfolding run_eq using slice by (cases w) simp
qed

lemma write_retry_done: "event_size \<le> k \<Longrightarrow> write_retry ev k w = Some (Retry_done, w)"
  by (subst write_retry.simps) simp

lemma write_retry_complete:
  assumes "retry_run k xs = Some event_size" and "stdout_res w = xs @- s"
    and "length ev = event_size"
  shows "write_retry ev k w =
     Some (Retry_done, w\<lparr>stdout_res := s, out_bytes := out_bytes w @ drop k ev,
                          ops := ops w @ retry_ops k xs\<rparr>)"
  using assms by (simp add: write_retry_prefix [OF assms(1,2)] write_retry_done)

subsection \<open>Leaving the retry loop, or never leaving it\<close>

lemma write_retry_stall_step:
  assumes "k < event_size" and "\<not> makes_progress (shd (stdout_res w))"
  shows "write_retry ev k w =
     write_retry ev k (w\<lparr>stdout_res := stl (stdout_res w),
                          ops := ops w @ [Op_write k (event_size - k)]\<rparr>)"
proof (cases "shd (stdout_res w)")
  case (WrErr e)
  then show ?thesis using assms
    by (cases w, subst write_retry.simps) (simp add: sys_write_def)
next
  case (WrRet n)
  then show ?thesis using assms
    by (cases w, subst write_retry.simps) (simp add: sys_write_def)
qed

lemma write_retry_stalls_aux:
  assumes "write_retry ev k w = Some y"
  shows "\<not> (k < event_size \<and> (\<forall>i. \<not> makes_progress (stdout_res w !! i)))"
proof (rule write_retry.raw_induct
    [where P = "\<lambda>ev k w y. \<not> (k < event_size \<and> (\<forall>i. \<not> makes_progress (stdout_res w !! i)))",
     OF _ assms], goal_cases)
  case (1 retry ev k w y)
  note IH = "1"(1) and body = "1"(2)
  show ?case
  proof
    assume stall: "k < event_size \<and> (\<forall>i. \<not> makes_progress (stdout_res w !! i))"
    then have hd: "\<not> makes_progress (shd (stdout_res w))"
      by (metis snth.simps(1))
    have tl: "\<forall>i. \<not> makes_progress (stl (stdout_res w) !! i)"
      using stall by (metis snth.simps(2))
    let ?w = "w\<lparr>stdout_res := stl (stdout_res w), ops := ops w @ [Op_write k (event_size - k)]\<rparr>"
    have "retry ev k ?w = Some y"
    proof (cases "shd (stdout_res w)")
      case (WrErr e)
      then show ?thesis using body stall hd
        by (cases w) (simp add: sys_write_def)
    next
      case (WrRet n)
      then show ?thesis using body stall hd
        by (cases w) (simp add: sys_write_def)
    qed
    from IH [OF this] show False using stall tl by simp
  qed
qed

lemma write_retry_stalls:
  "k < event_size \<Longrightarrow> \<forall>i. \<not> makes_progress (stdout_res w !! i) \<Longrightarrow> write_retry ev k w = None"
  using write_retry_stalls_aux [of ev k w] by (cases "write_retry ev k w") auto

lemma write_retry_terminates:
  "\<forall>i < event_size - k. makes_progress (stdout_res w !! i) \<Longrightarrow> \<exists>y. write_retry ev k w = Some y"
proof (induction "event_size - k" arbitrary: k w rule: less_induct)
  case less
  show ?case
  proof (cases "k < event_size")
    case False
    then show ?thesis by (simp add: write_retry_done)
  next
    case True
    then have hd: "makes_progress (shd (stdout_res w))"
      using less.prems by (metis snth.simps(1) zero_less_diff)
    show ?thesis
    proof (cases "shd (stdout_res w)")
      case (WrErr e)
      then show ?thesis using True hd
        by (subst write_retry.simps) (simp add: sys_write_def)
    next
      case (WrRet n)
      let ?m = "min n (event_size - k)"
      let ?w = "w\<lparr>stdout_res := stl (stdout_res w), ops := ops w @ [Op_write k (event_size - k)],
                  out_bytes := out_bytes w @ take ?m (drop k ev)\<rparr>"
      have pos: "0 < ?m" using WrRet hd True by simp
      have step: "write_retry ev k w = write_retry ev (k + ?m) ?w"
        using WrRet True by (cases w, subst write_retry.simps) (simp add: sys_write_def)
      have "\<forall>i < event_size - (k + ?m). makes_progress (stdout_res ?w !! i)"
      proof (intro allI impI)
        fix i assume "i < event_size - (k + ?m)"
        then have "Suc i < event_size - k" using pos by simp
        then have "makes_progress (stdout_res w !! Suc i)" using less.prems by blast
        then show "makes_progress (stdout_res ?w !! i)" by simp
      qed
      moreover have "event_size - (k + ?m) < event_size - k" using pos True by simp
      ultimately have "\<exists>y. write_retry ev (k + ?m) ?w = Some y"
        by (rule less.hyps [rotated])
      then show ?thesis unfolding step .
    qed
  qed
qed

lemma write_retry_epipe:
  assumes "k < event_size" and "shd (stdout_res w) = WrErr EPIPE"
  shows "write_retry ev k w =
     Some (Goto_end_loop,
           w\<lparr>stdout_res := stl (stdout_res w),
             err_lines := err_lines w @ [Pipe_broken_retry],
             ops := ops w @ [Op_write k (event_size - k), Op_log]\<rparr>)"
  using assms by (cases w, subst write_retry.simps) (simp add: sys_write_def log_line_def)

lemma write_retry_error:
  assumes "k < event_size" and "shd (stdout_res w) = WrErr e" and "e \<noteq> EINTR" and "e \<noteq> EPIPE"
  shows "write_retry ev k w =
     Some (Return_1,
           w\<lparr>stdout_res := stl (stdout_res w),
             err_lines := err_lines w @ [Err_writing_retry e],
             ops := ops w @ [Op_write k (event_size - k), Op_log]\<rparr>)"
  using assms by (cases w, subst write_retry.simps) (simp add: sys_write_def log_line_def)

subsection \<open>The outer loop over a list of deliveries\<close>

lemma relay_reads_eintr:
  "stdin_res w = replicate m (RdErr EINTR) @- si \<Longrightarrow>
   relay_loop ev w =
     relay_loop ev (w\<lparr>stdin_res := si, ops := ops w @ replicate m (Op_read event_size)\<rparr>)"
proof (induction m arbitrary: w)
  case 0
  then show ?case by (cases w) simp
next
  case (Suc m)
  let ?w = "w\<lparr>stdin_res := replicate m (RdErr EINTR) @- si, ops := ops w @ [Op_read event_size]\<rparr>"
  have "relay_loop ev w = relay_loop ev ?w"
    using Suc.prems by (simp add: relay_read_eintr)
  also have "\<dots> = relay_loop ev (?w\<lparr>stdin_res := si, ops := ops ?w @ replicate m (Op_read event_size)\<rparr>)"
    by (rule Suc.IH) simp
  finally show ?case by (simp add: replicate_app_Cons_same)
qed

lemma relay_delivery:
  assumes ok: "delivery_ok d"
    and rd: "stdin_res w = delivery_reads d @- si"
    and wr: "stdout_res w = delivery_writes d @- so"
  shows "relay_loop ev w =
     relay_loop (payload d)
       (w\<lparr>stdin_res := si, stdout_res := so,
          out_bytes := out_bytes w @ payload d,
          err_lines := err_lines w @ [read_event_line (payload d)],
          ops := ops w @ delivery_ops d\<rparr>)"
proof -
  let ?r = "payload d"
  let ?w1 = "w\<lparr>stdin_res := RdRet ?r ## si,
                ops := ops w @ replicate (intr_reads d) (Op_read event_size)\<rparr>"
  have len: "length ?r = event_size" using ok by (simp add: delivery_ok_def)
  have "stdin_res w = replicate (intr_reads d) (RdErr EINTR) @- (RdRet ?r ## si)"
    using rd by (simp add: delivery_reads_def)
  then have head: "relay_loop ev w = relay_loop ev ?w1"
    by (rule relay_reads_eintr)
  show ?thesis
  proof (cases "wr_path d")
    case Direct
    then have "shd (stdout_res ?w1) = WrRet event_size" and "stl (stdout_res ?w1) = so"
      using wr by (simp_all add: delivery_writes_def)
    with len have "relay_loop ev ?w1 = relay_loop ?r (?w1\<lparr>stdin_res := stl (stdin_res ?w1), stdout_res := stl (stdout_res ?w1),
                     out_bytes := out_bytes ?w1 @ ?r,
                     err_lines := err_lines ?w1 @ [read_event_line ?r],
                     ops := ops ?w1 @ [Op_read event_size, Op_log, Op_write 0 event_size]\<rparr>)"
      by (intro relay_write_full [where n = event_size]) simp_all
    then show ?thesis
      using Direct wr unfolding head by (cases w) (simp add: delivery_ops_def delivery_writes_def)
  next
    case (Retried xs)
    then have run: "retry_run 0 xs = Some event_size" using ok by (simp add: delivery_ok_def)
    let ?w3 = "?w1\<lparr>stdin_res := stl (stdin_res ?w1), stdout_res := stl (stdout_res ?w1),
                     err_lines := err_lines ?w1 @ [read_event_line ?r],
                     ops := ops ?w1 @ [Op_read event_size, Op_log, Op_write 0 event_size]\<rparr>"
    have w3: "stdout_res ?w3 = xs @- so" using Retried wr by (simp add: delivery_writes_def)
    have "shd (stdout_res ?w1) = WrErr EINTR" using Retried wr by (simp add: delivery_writes_def)
    with len have "relay_loop ev ?w1 = (case write_retry ?r 0 ?w3 of
        None \<Rightarrow> None
      | Some (Retry_done, w4) \<Rightarrow> relay_loop ?r w4
      | Some (Goto_end_loop, w4) \<Rightarrow> Some (0, w4)
      | Some (Return_1, w4) \<Rightarrow> Some (1, w4))"
      by (intro relay_write_eintr) simp_all
    then show ?thesis
      using Retried unfolding head write_retry_complete [OF run w3 len]
      by (cases w) (simp add: delivery_ops_def)
  qed
qed

lemma relay_deliveries:
  assumes "\<forall>d \<in> set ds. delivery_ok d"
    and "stdin_res w = concat (map delivery_reads ds) @- si"
    and "stdout_res w = concat (map delivery_writes ds) @- so"
  shows "relay_loop ev w =
     relay_loop (last (ev # map payload ds))
       (w\<lparr>stdin_res := si, stdout_res := so,
          out_bytes := out_bytes w @ concat (map payload ds),
          err_lines := err_lines w @ map read_event_line (map payload ds),
          ops := ops w @ concat (map delivery_ops ds)\<rparr>)"
  using assms
proof (induction ds arbitrary: ev w)
  case Nil
  then show ?case by (cases w) simp
next
  case (Cons d ds)
  let ?w = "w\<lparr>stdin_res := concat (map delivery_reads ds) @- si,
              stdout_res := concat (map delivery_writes ds) @- so,
              out_bytes := out_bytes w @ payload d,
              err_lines := err_lines w @ [read_event_line (payload d)],
              ops := ops w @ delivery_ops d\<rparr>"
  have "relay_loop ev w = relay_loop (payload d) ?w"
    using Cons.prems by (intro relay_delivery) simp_all
  also have "\<dots> = relay_loop (last (payload d # map payload ds))
       (?w\<lparr>stdin_res := si, stdout_res := so,
          out_bytes := out_bytes ?w @ concat (map payload ds),
          err_lines := err_lines ?w @ map read_event_line (map payload ds),
          ops := ops ?w @ concat (map delivery_ops ds)\<rparr>)"
    using Cons.prems by (intro Cons.IH) simp_all
  finally show ?case by (cases w) simp
qed

subsection \<open>Runs without faults, and the sample events\<close>

lemma sample_a_len: "length sample_a = event_size"
  by (simp add: sample_a_def event_size_def)

lemma sample_b_len: "length sample_b = event_size"
  by (simp add: sample_b_def event_size_def)

lemma sconst_unfold: "sconst x = x ## sconst x"
  by (subst siterate.ctr) simp

lemma plain_reads: "concat (map delivery_reads (map plain rs)) = map RdRet rs"
  by (induction rs) (simp_all add: delivery_reads_def plain_def)

lemma plain_writes: "concat (map delivery_writes (map plain rs)) = replicate (length rs) (WrRet event_size)"
  by (induction rs) (simp_all add: delivery_writes_def plain_def)

lemma plain_delivery_ops: "concat (map delivery_ops (map plain rs)) = concat (replicate (length rs) plain_ops)"
  by (induction rs) (simp_all add: delivery_ops_def plain_def plain_ops_def)

lemma plain_payload: "map payload (map plain rs) = rs"
  by (induction rs) (simp_all add: plain_def)

lemma plain_ok: "length r = event_size \<Longrightarrow> delivery_ok (plain r)"
  by (simp add: delivery_ok_def plain_def)

lemma relay_deliveries_eof:
  assumes "\<forall>d \<in> set ds. delivery_ok d"
    and "stdin_res w = concat (map delivery_reads ds) @- (RdRet [] ## si)"
    and "stdout_res w = concat (map delivery_writes ds) @- so"
  shows "relay_loop ev w =
     Some (0, w\<lparr>stdin_res := si, stdout_res := so,
                out_bytes := out_bytes w @ concat (map payload ds),
                err_lines := err_lines w @ map read_event_line (map payload ds),
                ops := ops w @ concat (map delivery_ops ds) @ [Op_read event_size]\<rparr>)"
  unfolding relay_deliveries [OF assms]
  by (cases w) (simp add: relay_eof)

lemma relay_plain_run:
  assumes "\<forall>r \<in> set rs. length r = event_size"
    and "stdin_res w = map RdRet rs @- (RdRet [] ## si)"
    and "stdout_res w = replicate (length rs) (WrRet event_size) @- so"
  shows "relay_loop ev w =
     Some (0, w\<lparr>stdin_res := si, stdout_res := so,
                out_bytes := out_bytes w @ concat rs,
                err_lines := err_lines w @ map read_event_line rs,
                ops := ops w @ concat (replicate (length rs) plain_ops) @ [Op_read event_size]\<rparr>)"
proof -
  have "\<forall>d \<in> set (map plain rs). delivery_ok d"
    using assms(1) by (auto intro: plain_ok)
  from relay_deliveries_eof [OF this, of w si so ev] assms(2,3) show ?thesis
    by (simp only: plain_reads plain_writes plain_delivery_ops plain_payload)
qed

subsection \<open>A retry that ends on an error\<close>

lemma relay_retry_abort:
  assumes rd: "shd (stdin_res w) = RdRet r" and len: "length r = event_size"
    and wr: "stdout_res w = WrErr EINTR ## xs @- (WrErr e ## so)"
    and run: "retry_run 0 xs = Some k" and k: "k < event_size" and e: "e \<noteq> EINTR"
  shows "relay_loop ev w =
     Some (if e = EPIPE then 0 else 1,
           w\<lparr>stdin_res := stl (stdin_res w), stdout_res := so,
             out_bytes := out_bytes w @ take k r,
             err_lines := err_lines w @
               [read_event_line r, if e = EPIPE then Pipe_broken_retry else Err_writing_retry e],
             ops := ops w @ plain_ops @ retry_ops 0 xs @ [Op_write k (event_size - k), Op_log]\<rparr>)"
proof -
  let ?w3 = "w\<lparr>stdin_res := stl (stdin_res w), stdout_res := stl (stdout_res w),
                     err_lines := err_lines w @ [read_event_line r],
                     ops := ops w @ [Op_read event_size, Op_log, Op_write 0 event_size]\<rparr>"
  let ?w4 = "?w3\<lparr>stdout_res := WrErr e ## so,
                          out_bytes := out_bytes ?w3 @ take (k - 0) (drop 0 r),
                          ops := ops ?w3 @ retry_ops 0 xs\<rparr>"
  have "shd (stdout_res w) = WrErr EINTR" using wr by simp
  with rd len have outer: "relay_loop ev w = (case write_retry r 0 ?w3 of
        None \<Rightarrow> None
      | Some (Retry_done, w4) \<Rightarrow> relay_loop r w4
      | Some (Goto_end_loop, w4) \<Rightarrow> Some (0, w4)
      | Some (Return_1, w4) \<Rightarrow> Some (1, w4))"
    by (rule relay_write_eintr)
  have "stdout_res ?w3 = xs @- (WrErr e ## so)" using wr by simp
  with run have inner: "write_retry r 0 ?w3 = write_retry r k ?w4"
    by (rule write_retry_prefix)
  show ?thesis
  proof (cases "e = EPIPE")
    case True
    then have "write_retry r k ?w4 = Some (Goto_end_loop,
           ?w4\<lparr>stdout_res := stl (stdout_res ?w4),
             err_lines := err_lines ?w4 @ [Pipe_broken_retry],
             ops := ops ?w4 @ [Op_write k (event_size - k), Op_log]\<rparr>)"
      using k by (intro write_retry_epipe) simp_all
    then show ?thesis unfolding outer inner using True
      by (cases w) (simp add: plain_ops_def)
  next
    case False
    then have "write_retry r k ?w4 = Some (Return_1,
           ?w4\<lparr>stdout_res := stl (stdout_res ?w4),
             err_lines := err_lines ?w4 @ [Err_writing_retry e],
             ops := ops ?w4 @ [Op_write k (event_size - k), Op_log]\<rparr>)"
      using k e by (intro write_retry_error) simp_all
    then show ?thesis unfolding outer inner using False
      by (cases w) (simp add: plain_ops_def)
  qed
qed

subsection \<open>Deliveries up to the end of file, and the requests issued\<close>

lemma retry_ops_full: "retry_run k xs = Some k' \<Longrightarrow> list_all full_request (retry_ops k xs)"
  by (induction k xs rule: retry_run.induct) (auto split: if_splits)

lemma delivery_ops_full: "delivery_ok d \<Longrightarrow> list_all full_request (delivery_ops d)"
  by (cases "wr_path d")
     (auto simp: delivery_ok_def delivery_ops_def list_all_iff dest!: retry_ops_full)

lemma deliveries_ops_full:
  "\<forall>d \<in> set ds. delivery_ok d \<Longrightarrow> list_all full_request (concat (map delivery_ops ds))"
  by (induction ds) (simp_all add: delivery_ops_full)

lemma relay_deliveries_intr_eof:
  assumes "\<forall>d \<in> set ds. delivery_ok d"
    and "stdin_res w =
           concat (map delivery_reads ds) @- replicate m (RdErr EINTR) @- (RdRet [] ## si)"
    and "stdout_res w = concat (map delivery_writes ds) @- so"
  shows "relay_loop ev w =
     Some (0, w\<lparr>stdin_res := si, stdout_res := so,
                out_bytes := out_bytes w @ concat (map payload ds),
                err_lines := err_lines w @ map read_event_line (map payload ds),
                ops := ops w @ concat (map delivery_ops ds)
                         @ replicate m (Op_read event_size) @ [Op_read event_size]\<rparr>)"
proof -
  let ?w = "w\<lparr>stdin_res := replicate m (RdErr EINTR) @- (RdRet [] ## si), stdout_res := so,
          out_bytes := out_bytes w @ concat (map payload ds),
          err_lines := err_lines w @ map read_event_line (map payload ds),
          ops := ops w @ concat (map delivery_ops ds)\<rparr>"
  let ?ev = "last (ev # map payload ds)"
  have "relay_loop ev w = relay_loop ?ev ?w"
    using assms by (rule relay_deliveries)
  also have "\<dots> = relay_loop ?ev
      (?w\<lparr>stdin_res := RdRet [] ## si, ops := ops ?w @ replicate m (Op_read event_size)\<rparr>)"
    by (rule relay_reads_eintr) simp
  finally show ?thesis
    by (cases w) (simp add: relay_eof)
qed

section \<open>The claims\<close>

subsection \<open>C1: fidelity\<close>

text \<open>
  Claim C1.  Let the input deliver the events \<open>rs\<close>, each of the full size, and then
  report end of file, with no read failing; let the first write of every event take it
  whole.  Then the program returns (it exits with status 0), and what it has transmitted
  by then is what had been transmitted before followed by the bytes of \<open>rs\<close>: every
  event once, in the order read, unchanged.  From the start of the process, where nothing
  has been transmitted, the output is exactly \<open>concat rs\<close>.
\<close>

theorem fidelity:
  assumes "\<forall>r \<in> set rs. length r = event_size"
    and "stdin_res w = map RdRet rs @- (RdRet [] ## si)"
    and "stdout_res w = replicate (length rs) (WrRet event_size) @- so"
  shows "map_option (\<lambda>(status, w'). (status, out_bytes w')) (main ev0 w) =
     Some (0, out_bytes w @ concat rs)"
  unfolding main_def relay_plain_run [OF assms] by simp

theorem fidelity_witness:
  "map_option (\<lambda>(status, w'). (status, out_bytes w'))
     (main [] (start_world [RdRet sample_a, RdRet sample_b] [])) =
   Some (0, sample_a @ sample_b)"
proof -
  let ?w = "start_world [RdRet sample_a, RdRet sample_b] []"
  have len: "\<forall>r \<in> set [sample_a, sample_b]. length r = event_size"
    by (simp add: sample_a_len sample_b_len)
  have rd: "stdin_res ?w = map RdRet [sample_a, sample_b] @- (RdRet [] ## sconst (RdRet []))"
    by (simp add: start_world_def sconst_unfold [symmetric])
  have wr: "stdout_res ?w =
      replicate (length [sample_a, sample_b]) (WrRet event_size) @- sconst (WrRet event_size)"
    by (simp only: start_world_def world.simps shift.simps shift_replicate_sconst)
  from fidelity [OF len rd wr, of "[]"] show ?thesis
    by (simp add: start_world_def)
qed

subsection \<open>C2: resuming an interrupted write\<close>

text \<open>
  Claim C2, as stated, fails for the first write of an event.  When a signal interrupts a
  \<^verbatim>\<open>write\<close> that has already moved 5 of the 24 bytes, the call returns 5.  The program
  does not send the remaining 19 bytes: it takes the short count for an unexpected
  partial write (lines 71 to 75), prints \<open>Partial_write 5\<close> and exits with status 1,
  although every later write would have taken all it was given.  The receiver is left
  with 5 bytes of the event.
\<close>

theorem interrupted_first_write_not_resumed:
  "main [] (start_world [RdRet sample_a] [WrRet 5]) =
     Some (1, \<lparr>stdin_res = sconst (RdRet []), stdout_res = sconst (WrRet event_size),
               out_bytes = take 5 sample_a,
               err_lines = [read_event_line sample_a, Partial_write 5],
               ops = [Op_read event_size, Op_log, Op_write 0 event_size, Op_log]\<rparr>)
   \<and> take 5 sample_a \<noteq> sample_a"
proof
  let ?w = "start_world [RdRet sample_a] [WrRet 5]"
  have rd: "shd (stdin_res ?w) = RdRet sample_a" by (simp add: start_world_def)
  have wr: "shd (stdout_res ?w) = WrRet 5" by (simp add: start_world_def)
  have n: "5 < event_size" by (simp add: event_size_def)
  from relay_write_short [OF rd sample_a_len wr n, of "[]"]
  show "main [] ?w =
     Some (1, \<lparr>stdin_res = sconst (RdRet []), stdout_res = sconst (WrRet event_size),
               out_bytes = take 5 sample_a,
               err_lines = [read_event_line sample_a, Partial_write 5],
               ops = [Op_read event_size, Op_log, Op_write 0 event_size, Op_log]\<rparr>)"
    by (simp add: main_def start_world_def)
next
  show "take 5 sample_a \<noteq> sample_a" by (simp add: sample_a_def)
qed

text \<open>
  Claim C2, amended.  Resumption is what the retry loop does, and the retry loop is
  entered only when the first write failed with \<^verbatim>\<open>EINTR\<close>, that is with nothing
  transmitted, so it starts from the count 0 and sends the whole event.

  \<^item> Inside the retry loop, with \<open>k\<close> bytes of the event counted so far: whatever the
    \<^verbatim>\<open>EINTR\<close> failures and the partial counts of the writes that follow (\<open>xs\<close>), each
    request is for the bytes from the current count to the end of the event
    (\<open>retry_ops\<close>), and when the count reaches the size of the event the loop is left
    with exactly the bytes \<open>drop k ev\<close>, the remaining ones, added to the output.
  \<^item> For the iteration as a whole: after a first write that failed with \<^verbatim>\<open>EINTR\<close> and
    a retry that runs to the end, the output has gained the event exactly once and the
    program is at the head of its loop.
\<close>

theorem interrupted_write_resumption:
  "(retry_run k xs = Some event_size \<and> stdout_res w = xs @- so \<and> length ev = event_size \<longrightarrow>
      write_retry ev k w =
        Some (Retry_done,
              w\<lparr>stdout_res := so, out_bytes := out_bytes w @ drop k ev,
                ops := ops w @ retry_ops k xs\<rparr>))
 \<and> (shd (stdin_res w) = RdRet r \<and> length r = event_size \<and>
      stdout_res w = WrErr EINTR ## xs @- so \<and> retry_run 0 xs = Some event_size \<longrightarrow>
      relay_loop ev w =
        relay_loop r
          (w\<lparr>stdin_res := stl (stdin_res w), stdout_res := so,
             out_bytes := out_bytes w @ r,
             err_lines := err_lines w @ [read_event_line r],
             ops := ops w @ plain_ops @ retry_ops 0 xs\<rparr>))"
proof (intro conjI impI)
  assume "retry_run k xs = Some event_size \<and> stdout_res w = xs @- so \<and> length ev = event_size"
  then show "write_retry ev k w =
        Some (Retry_done,
              w\<lparr>stdout_res := so, out_bytes := out_bytes w @ drop k ev,
                ops := ops w @ retry_ops k xs\<rparr>)"
    by (simp add: write_retry_complete)
next
  assume a: "shd (stdin_res w) = RdRet r \<and> length r = event_size \<and>
      stdout_res w = WrErr EINTR ## xs @- so \<and> retry_run 0 xs = Some event_size"
  let ?d = "\<lparr>intr_reads = 0, payload = r, wr_path = Retried xs\<rparr>"
  have ok: "delivery_ok ?d" using a by (simp add: delivery_ok_def)
  have "stdin_res w = shd (stdin_res w) ## stl (stdin_res w)" by simp
  then have rd: "stdin_res w = delivery_reads ?d @- stl (stdin_res w)"
    using a by (simp add: delivery_reads_def)
  have wr: "stdout_res w = delivery_writes ?d @- so"
    using a by (simp add: delivery_writes_def)
  from relay_delivery [OF ok rd wr, of ev]
  show "relay_loop ev w =
        relay_loop r
          (w\<lparr>stdin_res := stl (stdin_res w), stdout_res := so,
             out_bytes := out_bytes w @ r,
             err_lines := err_lines w @ [read_event_line r],
             ops := ops w @ plain_ops @ retry_ops 0 xs\<rparr>)"
    by (simp add: delivery_ops_def plain_ops_def)
qed

theorem interrupted_write_resumption_witness:
  "write_retry sample_a 5
     \<lparr>stdin_res = sconst (RdRet []),
      stdout_res = [WrErr EINTR, WrRet 10, WrRet 0, WrRet 100] @- sconst (WrErr EPIPE),
      out_bytes = take 5 sample_a, err_lines = [], ops = []\<rparr> =
   Some (Retry_done,
     \<lparr>stdin_res = sconst (RdRet []), stdout_res = sconst (WrErr EPIPE),
      out_bytes = sample_a, err_lines = [],
      ops = [Op_write 5 19, Op_write 5 19, Op_write 15 9, Op_write 15 9]\<rparr>)
 \<and> relay_loop [] (start_world [RdRet sample_a] [WrErr EINTR, WrRet 5, WrErr EINTR, WrRet 19]) =
   relay_loop sample_a
     \<lparr>stdin_res = sconst (RdRet []), stdout_res = sconst (WrRet event_size),
      out_bytes = sample_a, err_lines = [read_event_line sample_a],
      ops = [Op_read 24, Op_log, Op_write 0 24, Op_write 0 24, Op_write 5 19, Op_write 5 19]\<rparr>"
proof
  let ?w = "\<lparr>stdin_res = sconst (RdRet []),
      stdout_res = [WrErr EINTR, WrRet 10, WrRet 0, WrRet 100] @- sconst (WrErr EPIPE),
      out_bytes = take 5 sample_a, err_lines = [], ops = []\<rparr>"
  have run: "retry_run 5 [WrErr EINTR, WrRet 10, WrRet 0, WrRet 100] = Some event_size"
    by (simp add: event_size_def)
  have rejoin: "take 5 sample_a @ drop 5 sample_a = sample_a" by simp
  from interrupted_write_resumption
    [where k = 5 and xs = "[WrErr EINTR, WrRet 10, WrRet 0, WrRet 100]" and w = ?w
       and so = "sconst (WrErr EPIPE)" and ev = sample_a] run sample_a_len
  show "write_retry sample_a 5 ?w =
   Some (Retry_done,
     \<lparr>stdin_res = sconst (RdRet []), stdout_res = sconst (WrErr EPIPE),
      out_bytes = sample_a, err_lines = [],
      ops = [Op_write 5 19, Op_write 5 19, Op_write 15 9, Op_write 15 9]\<rparr>)"
    by (simp add: rejoin del: append_take_drop_id) (simp add: event_size_def)
next
  let ?w = "start_world [RdRet sample_a] [WrErr EINTR, WrRet 5, WrErr EINTR, WrRet 19]"
  have run: "retry_run 0 [WrRet 5, WrErr EINTR, WrRet 19] = Some event_size"
    by (simp add: event_size_def)
  from interrupted_write_resumption
    [where w = ?w and r = sample_a and xs = "[WrRet 5, WrErr EINTR, WrRet 19]"
       and so = "sconst (WrRet event_size)" and ev = "[]"] run sample_a_len
  show "relay_loop [] ?w =
   relay_loop sample_a
     \<lparr>stdin_res = sconst (RdRet []), stdout_res = sconst (WrRet event_size),
      out_bytes = sample_a, err_lines = [read_event_line sample_a],
      ops = [Op_read 24, Op_log, Op_write 0 24, Op_write 0 24, Op_write 5 19, Op_write 5 19]\<rparr>"
    by (simp add: start_world_def plain_ops_def) (simp add: event_size_def)
qed

subsection \<open>C3: a broken pipe ends the program with status 0\<close>

text \<open>
  Claim C3.  Let the loop be at its head and the next read deliver a full event.

  \<^item> If the first write of the event fails with \<^verbatim>\<open>EPIPE\<close>, the program prints the note
    \<open>Pipe_broken\<close> after the line of the event and exits with status 0; the output is
    what it was before this event.
  \<^item> If the first write fails with \<^verbatim>\<open>EINTR\<close>, the retry loop goes through the answers
    \<open>xs\<close> and reaches the count \<open>k\<close>, still below the size of the event, and the next
    write fails with \<^verbatim>\<open>EPIPE\<close>, the program prints the note \<open>Pipe_broken_retry\<close> and exits
    with status 0; the output is what it was before this event, followed by the \<open>k\<close>
    bytes of the event that the retried writes had transmitted before the pipe broke
    (none when \<open>k = 0\<close>).

  In both cases the failing write is the last write the process issues: nothing is
  forwarded after the pipe is reported broken, and the status is never the error status.
\<close>

theorem broken_pipe_exit_0:
  assumes "shd (stdin_res w) = RdRet r" and "length r = event_size"
  shows "(shd (stdout_res w) = WrErr EPIPE \<longrightarrow>
            relay_loop ev w =
              Some (0, w\<lparr>stdin_res := stl (stdin_res w), stdout_res := stl (stdout_res w),
                         err_lines := err_lines w @ [read_event_line r, Pipe_broken],
                         ops := ops w @ plain_ops @ [Op_log]\<rparr>))
       \<and> (stdout_res w = WrErr EINTR ## xs @- (WrErr EPIPE ## so) \<and>
            retry_run 0 xs = Some k \<and> k < event_size \<longrightarrow>
            relay_loop ev w =
              Some (0, w\<lparr>stdin_res := stl (stdin_res w), stdout_res := so,
                         out_bytes := out_bytes w @ take k r,
                         err_lines := err_lines w @ [read_event_line r, Pipe_broken_retry],
                         ops := ops w @ plain_ops @ retry_ops 0 xs
                                  @ [Op_write k (event_size - k), Op_log]\<rparr>))"
proof (intro conjI impI)
  assume "shd (stdout_res w) = WrErr EPIPE"
  with assms show "relay_loop ev w =
      Some (0, w\<lparr>stdin_res := stl (stdin_res w), stdout_res := stl (stdout_res w),
                 err_lines := err_lines w @ [read_event_line r, Pipe_broken],
                 ops := ops w @ plain_ops @ [Op_log]\<rparr>)"
    by (simp add: relay_write_epipe plain_ops_def)
next
  assume "stdout_res w = WrErr EINTR ## xs @- (WrErr EPIPE ## so) \<and>
      retry_run 0 xs = Some k \<and> k < event_size"
  then show "relay_loop ev w =
      Some (0, w\<lparr>stdin_res := stl (stdin_res w), stdout_res := so,
                 out_bytes := out_bytes w @ take k r,
                 err_lines := err_lines w @ [read_event_line r, Pipe_broken_retry],
                 ops := ops w @ plain_ops @ retry_ops 0 xs
                          @ [Op_write k (event_size - k), Op_log]\<rparr>)"
    using relay_retry_abort [OF assms, of xs EPIPE so k ev] by simp
qed

theorem broken_pipe_exit_0_witness:
  "relay_loop [] (start_world [RdRet sample_a] [WrErr EPIPE]) =
     Some (0, \<lparr>stdin_res = sconst (RdRet []), stdout_res = sconst (WrRet event_size),
               out_bytes = [], err_lines = [read_event_line sample_a, Pipe_broken],
               ops = [Op_read 24, Op_log, Op_write 0 24, Op_log]\<rparr>)
   \<and> relay_loop [] (start_world [RdRet sample_a] [WrErr EINTR, WrRet 5, WrErr EINTR, WrErr EPIPE]) =
     Some (0, \<lparr>stdin_res = sconst (RdRet []), stdout_res = sconst (WrRet event_size),
               out_bytes = [1, 2, 3, 4, 5],
               err_lines = [read_event_line sample_a, Pipe_broken_retry],
               ops = [Op_read 24, Op_log, Op_write 0 24, Op_write 0 24, Op_write 5 19,
                      Op_write 5 19, Op_log]\<rparr>)"
proof
  let ?w = "start_world [RdRet sample_a] [WrErr EPIPE]"
  have "shd (stdin_res ?w) = RdRet sample_a" by (simp add: start_world_def)
  from broken_pipe_exit_0 [OF this sample_a_len, where ev = "[]"]
  show "relay_loop [] ?w =
     Some (0, \<lparr>stdin_res = sconst (RdRet []), stdout_res = sconst (WrRet event_size),
               out_bytes = [], err_lines = [read_event_line sample_a, Pipe_broken],
               ops = [Op_read 24, Op_log, Op_write 0 24, Op_log]\<rparr>)"
    by (simp add: start_world_def plain_ops_def event_size_def)
next
  let ?w = "start_world [RdRet sample_a] [WrErr EINTR, WrRet 5, WrErr EINTR, WrErr EPIPE]"
  have "shd (stdin_res ?w) = RdRet sample_a" by (simp add: start_world_def)
  from broken_pipe_exit_0 [OF this sample_a_len,
      where xs = "[WrRet 5, WrErr EINTR]" and so = "sconst (WrRet event_size)" and k = 5
        and ev = "[]"]
  show "relay_loop [] ?w =
     Some (0, \<lparr>stdin_res = sconst (RdRet []), stdout_res = sconst (WrRet event_size),
               out_bytes = [1, 2, 3, 4, 5],
               err_lines = [read_event_line sample_a, Pipe_broken_retry],
               ops = [Op_read 24, Op_log, Op_write 0 24, Op_write 0 24, Op_write 5 19,
                      Op_write 5 19, Op_log]\<rparr>)"
    by (simp add: start_world_def plain_ops_def event_size_def sample_a_def)
qed

subsection \<open>C4: a short count is fatal for the first write only\<close>

text \<open>
  Claim C4, as stated, fails for the writes of the retry loop.  Let the first write of an
  event fail with \<^verbatim>\<open>EINTR\<close>, and let the next write, the first one of the retry loop
  (line 52), return 5: a count below the size of the event, and no interruption, since the
  call did not fail.  The program does not treat this as a partial transfer: it adds 5 to
  its count (line 64), asks for the remaining 19 bytes, prints nothing about it, and at the
  end of the input exits with status 0.
\<close>

theorem short_count_in_retry_not_fatal:
  "main [] (start_world [RdRet sample_a] [WrErr EINTR, WrRet 5, WrRet 19]) =
     Some (0, \<lparr>stdin_res = sconst (RdRet []), stdout_res = sconst (WrRet event_size),
               out_bytes = sample_a, err_lines = [read_event_line sample_a],
               ops = [Op_read event_size, Op_log, Op_write 0 event_size,
                      Op_write 0 24, Op_write 5 19, Op_read event_size]\<rparr>)"
proof -
  let ?w = "start_world [RdRet sample_a] [WrErr EINTR, WrRet 5, WrRet 19]"
  let ?d = "\<lparr>intr_reads = 0, payload = sample_a, wr_path = Retried [WrRet 5, WrRet 19]\<rparr>"
  have ok: "\<forall>d \<in> set [?d]. delivery_ok d"
    by (simp add: delivery_ok_def sample_a_len) (simp add: event_size_def)
  have rd: "stdin_res ?w = concat (map delivery_reads [?d]) @- (RdRet [] ## sconst (RdRet []))"
    by (simp add: start_world_def delivery_reads_def sconst_unfold [symmetric])
  have wr: "stdout_res ?w = concat (map delivery_writes [?d]) @- sconst (WrRet event_size)"
    by (simp add: start_world_def delivery_writes_def)
  from relay_deliveries_eof [OF ok rd wr, of "[]"] show ?thesis
    by (simp add: main_def start_world_def delivery_ops_def) (simp add: event_size_def)
qed

text \<open>
  Claim C4, amended.  A short count is fatal for the first write of an event and for no
  other write.

  \<^item> Let the loop be at its head and the next read deliver a full event.  If the write of
    line 39 returns a count below the size of the event, the program prints the one line
    \<open>Partial_write\<close> with that count and exits with status 1.  That write is the only
    write issued for the event: the rest of it is not sent.
  \<^item> Inside the retry loop, with \<open>k\<close> bytes counted so far, a write that returns fewer
    bytes than were asked for is followed by a request for exactly the bytes still
    missing; when that request is granted the loop is left in the normal way, with the
    bytes from \<open>k\<close> to the end of the event transmitted and no line printed.
\<close>

theorem short_write_fatal:
  "(shd (stdin_res w) = RdRet r \<and> length r = event_size \<and>
    shd (stdout_res w) = WrRet n \<and> n < event_size \<longrightarrow>
      relay_loop ev w =
        Some (1, w\<lparr>stdin_res := stl (stdin_res w), stdout_res := stl (stdout_res w),
                   out_bytes := out_bytes w @ take n r,
                   err_lines := err_lines w @ [read_event_line r, Partial_write n],
                   ops := ops w @ [Op_read event_size, Op_log, Op_write 0 event_size, Op_log]\<rparr>))
 \<and> (k < event_size \<and> length ev = event_size \<and>
    stdout_res w = WrRet n ## WrRet m ## so \<and>
    n < event_size - k \<and> event_size - (k + n) \<le> m \<longrightarrow>
      write_retry ev k w =
        Some (Retry_done,
              w\<lparr>stdout_res := so, out_bytes := out_bytes w @ drop k ev,
                ops := ops w @ [Op_write k (event_size - k),
                                Op_write (k + n) (event_size - (k + n))]\<rparr>))"
proof (intro conjI impI)
  assume "shd (stdin_res w) = RdRet r \<and> length r = event_size \<and>
    shd (stdout_res w) = WrRet n \<and> n < event_size"
  then show "relay_loop ev w =
        Some (1, w\<lparr>stdin_res := stl (stdin_res w), stdout_res := stl (stdout_res w),
                   out_bytes := out_bytes w @ take n r,
                   err_lines := err_lines w @ [read_event_line r, Partial_write n],
                   ops := ops w @ [Op_read event_size, Op_log, Op_write 0 event_size, Op_log]\<rparr>)"
    by (simp add: relay_write_short)
next
  assume a: "k < event_size \<and> length ev = event_size \<and>
    stdout_res w = WrRet n ## WrRet m ## so \<and>
    n < event_size - k \<and> event_size - (k + n) \<le> m"
  then have n: "min n (event_size - k) = n"
    and m: "min m (event_size - (k + n)) = event_size - (k + n)"
    and kn: "k + n < event_size"
    by (simp_all add: less_diff_conv add.commute)
  have run: "retry_run k [WrRet n, WrRet m] = Some event_size"
    using a kn by (simp add: n m)
  have wr: "stdout_res w = [WrRet n, WrRet m] @- so" using a by simp
  have len: "length ev = event_size" using a by simp
  from write_retry_complete [OF run wr len]
  show "write_retry ev k w =
        Some (Retry_done,
              w\<lparr>stdout_res := so, out_bytes := out_bytes w @ drop k ev,
                ops := ops w @ [Op_write k (event_size - k),
                                Op_write (k + n) (event_size - (k + n))]\<rparr>)"
    by (simp add: n)
qed

theorem short_write_fatal_witness:
  "relay_loop [] (start_world [RdRet sample_a] [WrRet 5]) =
     Some (1, \<lparr>stdin_res = sconst (RdRet []), stdout_res = sconst (WrRet event_size),
               out_bytes = [1, 2, 3, 4, 5],
               err_lines = [read_event_line sample_a, Partial_write 5],
               ops = [Op_read 24, Op_log, Op_write 0 24, Op_log]\<rparr>)
 \<and> write_retry sample_a 0
       \<lparr>stdin_res = sconst (RdRet []),
        stdout_res = [WrRet 5, WrRet 19] @- sconst (WrErr EPIPE),
        out_bytes = [], err_lines = [], ops = []\<rparr> =
     Some (Retry_done,
       \<lparr>stdin_res = sconst (RdRet []), stdout_res = sconst (WrErr EPIPE),
        out_bytes = sample_a, err_lines = [],
        ops = [Op_write 0 24, Op_write 5 19]\<rparr>)"
proof
  let ?w = "start_world [RdRet sample_a] [WrRet 5]"
  have "shd (stdin_res ?w) = RdRet sample_a \<and> length sample_a = event_size \<and>
    shd (stdout_res ?w) = WrRet 5 \<and> 5 < event_size"
    by (simp add: start_world_def sample_a_len) (simp add: event_size_def)
  with short_write_fatal [where w = ?w and r = sample_a and n = 5 and ev = "[]"]
  show "relay_loop [] ?w =
     Some (1, \<lparr>stdin_res = sconst (RdRet []), stdout_res = sconst (WrRet event_size),
               out_bytes = [1, 2, 3, 4, 5],
               err_lines = [read_event_line sample_a, Partial_write 5],
               ops = [Op_read 24, Op_log, Op_write 0 24, Op_log]\<rparr>)"
    by (simp add: start_world_def event_size_def) (simp add: sample_a_def)
next
  let ?w = "\<lparr>stdin_res = sconst (RdRet []),
        stdout_res = [WrRet 5, WrRet 19] @- sconst (WrErr EPIPE),
        out_bytes = [], err_lines = [], ops = []\<rparr>"
  have "0 < event_size \<and> length sample_a = event_size \<and>
    stdout_res ?w = WrRet 5 ## WrRet 19 ## sconst (WrErr EPIPE) \<and>
    5 < event_size - 0 \<and> event_size - (0 + 5) \<le> 19"
    by (simp add: sample_a_len) (simp add: event_size_def)
  with short_write_fatal [where w = ?w and k = 0 and n = 5 and m = 19 and ev = sample_a
      and so = "sconst (WrErr EPIPE)"]
  show "write_retry sample_a 0 ?w =
     Some (Retry_done,
       \<lparr>stdin_res = sconst (RdRet []), stdout_res = sconst (WrErr EPIPE),
        out_bytes = sample_a, err_lines = [],
        ops = [Op_write 0 24, Op_write 5 19]\<rparr>)"
    by (simp add: event_size_def)
qed

subsection \<open>C5: a short read is fatal\<close>

text \<open>
  Claim C5.  Whenever the loop is at its head and the next read returns a number of bytes
  that is not zero and is below the size of an event, the program prints the one line
  \<open>Partial_read\<close> with that number and exits with status 1.  The world it leaves differs
  from the one it found only by the read that was consumed, that line, and the two calls
  issued: nothing is added to the output, and no write is even attempted (the write
  answers are untouched), so the partly read event is never forwarded.
\<close>

theorem corrupt_short_read_fatal:
  assumes "shd (stdin_res w) = RdRet bs" and "0 < length bs" and "length bs < event_size"
  shows "relay_loop ev w =
     Some (1, w\<lparr>stdin_res := stl (stdin_res w),
                err_lines := err_lines w @ [Partial_read (length bs)],
                ops := ops w @ [Op_read event_size, Op_log]\<rparr>)"
  using assms by (rule relay_short_read)

theorem corrupt_short_read_fatal_witness:
  "relay_loop sample_a (start_world [RdRet [1, 2, 3]] []) =
     Some (1, \<lparr>stdin_res = sconst (RdRet []), stdout_res = sconst (WrRet event_size),
               out_bytes = [], err_lines = [Partial_read 3],
               ops = [Op_read event_size, Op_log]\<rparr>)"
  using corrupt_short_read_fatal [of "start_world [RdRet [1, 2, 3]] []" "[1, 2, 3]" sample_a]
  by (simp add: start_world_def event_size_def)

subsection \<open>C6: end of file at an event boundary\<close>

text \<open>
  Claim C6.  Let the loop be at its head, let any number of events be delivered from there
  (with or without interrupted calls on the way), and let the next read that is not
  interrupted return zero bytes.  Then the program exits with status 0.  By then every
  event read has been transmitted in full, once and in order; the read that found the end
  of file is the last call of the process: no line is printed for it and no write follows
  it, so nothing partial is forwarded.  With no delivery at all this is the step from any
  loop head at which the read returns zero bytes.
\<close>

theorem clean_eof:
  assumes "\<forall>d \<in> set ds. delivery_ok d"
    and "stdin_res w =
           concat (map delivery_reads ds) @- replicate m (RdErr EINTR) @- (RdRet [] ## si)"
    and "stdout_res w = concat (map delivery_writes ds) @- so"
  shows "main ev0 w =
     Some (0, w\<lparr>stdin_res := si, stdout_res := so,
                out_bytes := out_bytes w @ concat (map payload ds),
                err_lines := err_lines w @ map read_event_line (map payload ds),
                ops := ops w @ concat (map delivery_ops ds)
                         @ replicate m (Op_read event_size) @ [Op_read event_size]\<rparr>)"
proof -
  let ?w = "w\<lparr>stdin_res := replicate m (RdErr EINTR) @- (RdRet [] ## si), stdout_res := so,
          out_bytes := out_bytes w @ concat (map payload ds),
          err_lines := err_lines w @ map read_event_line (map payload ds),
          ops := ops w @ concat (map delivery_ops ds)\<rparr>"
  let ?ev = "last (ev0 # map payload ds)"
  have "relay_loop ev0 w = relay_loop ?ev ?w"
    using assms by (rule relay_deliveries)
  also have "\<dots> = relay_loop ?ev
      (?w\<lparr>stdin_res := RdRet [] ## si, ops := ops ?w @ replicate m (Op_read event_size)\<rparr>)"
    by (rule relay_reads_eintr) simp
  finally show ?thesis
    unfolding main_def by (cases w) (simp add: relay_eof)
qed

theorem clean_eof_witness:
  "main [] (start_world [RdErr EINTR, RdRet sample_a, RdRet sample_b, RdErr EINTR, RdErr EINTR]
              [WrErr EINTR, WrErr EINTR, WrRet 10, WrRet 0, WrRet 100, WrRet 24]) =
     Some (0, \<lparr>stdin_res = sconst (RdRet []), stdout_res = sconst (WrRet event_size),
               out_bytes = sample_a @ sample_b,
               err_lines = [read_event_line sample_a, read_event_line sample_b],
               ops = [Op_read 24, Op_read 24, Op_log, Op_write 0 24,
                      Op_write 0 24, Op_write 0 24, Op_write 10 14, Op_write 10 14,
                      Op_read 24, Op_log, Op_write 0 24,
                      Op_read 24, Op_read 24, Op_read 24]\<rparr>)"
proof -
  let ?d = "\<lparr>intr_reads = 1, payload = sample_a,
             wr_path = Retried [WrErr EINTR, WrRet 10, WrRet 0, WrRet 100]\<rparr>"
  let ?w = "start_world [RdErr EINTR, RdRet sample_a, RdRet sample_b, RdErr EINTR, RdErr EINTR]
              [WrErr EINTR, WrErr EINTR, WrRet 10, WrRet 0, WrRet 100, WrRet 24]"
  have ok: "\<forall>d \<in> set [?d, plain sample_b]. delivery_ok d"
    by (simp add: delivery_ok_def plain_def sample_a_len sample_b_len) (simp add: event_size_def)
  have rd: "stdin_res ?w =
      concat (map delivery_reads [?d, plain sample_b])
        @- replicate 2 (RdErr EINTR) @- (RdRet [] ## sconst (RdRet []))"
    by (simp add: start_world_def delivery_reads_def plain_def numeral_2_eq_2
        sconst_unfold [symmetric])
  have wr: "stdout_res ?w =
      concat (map delivery_writes [?d, plain sample_b]) @- sconst (WrRet event_size)"
    by (simp add: start_world_def delivery_writes_def plain_def event_size_def)
  from clean_eof [OF ok rd wr, of "[]"] show ?thesis
    by (simp add: start_world_def delivery_ops_def plain_def event_size_def numeral_2_eq_2)
qed

subsection \<open>C7: interruptions neither skip nor duplicate an event\<close>

text \<open>
  Claim C7, as stated, fails when a signal interrupts a call that has already moved some
  bytes: such a call does not fail with \<^verbatim>\<open>EINTR\<close>, it returns the short count.  Here the
  first event gets through (after one read that failed with \<^verbatim>\<open>EINTR\<close>), and the first
  write of the second event is cut after 7 bytes.  The write is not resumed: the
  interruption comes out of the loop as the error \<open>Partial_write 7\<close> with exit status 1,
  and the second event never reaches the output in full.
\<close>

theorem short_interrupted_write_surfaces:
  "main [] (start_world [RdErr EINTR, RdRet sample_a, RdRet sample_b] [WrRet 24, WrRet 7]) =
     Some (1, \<lparr>stdin_res = sconst (RdRet []), stdout_res = sconst (WrRet event_size),
               out_bytes = sample_a @ take 7 sample_b,
               err_lines = [read_event_line sample_a, read_event_line sample_b, Partial_write 7],
               ops = [Op_read event_size, Op_read event_size, Op_log, Op_write 0 event_size,
                      Op_read event_size, Op_log, Op_write 0 event_size, Op_log]\<rparr>)
   \<and> sample_a @ take 7 sample_b \<noteq> sample_a @ sample_b"
proof
  let ?w = "start_world [RdErr EINTR, RdRet sample_a, RdRet sample_b] [WrRet 24, WrRet 7]"
  let ?d = "\<lparr>intr_reads = 1, payload = sample_a, wr_path = Direct\<rparr>"
  let ?w1 = "?w\<lparr>stdin_res := RdRet sample_b ## sconst (RdRet []),
               stdout_res := WrRet 7 ## sconst (WrRet event_size),
               out_bytes := out_bytes ?w @ concat (map payload [?d]),
               err_lines := err_lines ?w @ map read_event_line (map payload [?d]),
               ops := ops ?w @ concat (map delivery_ops [?d])\<rparr>"
  have ok: "\<forall>d \<in> set [?d]. delivery_ok d"
    by (simp add: delivery_ok_def sample_a_len)
  have rd: "stdin_res ?w =
      concat (map delivery_reads [?d]) @- (RdRet sample_b ## sconst (RdRet []))"
    by (simp add: start_world_def delivery_reads_def)
  have wr: "stdout_res ?w =
      concat (map delivery_writes [?d]) @- (WrRet 7 ## sconst (WrRet event_size))"
    by (simp add: start_world_def delivery_writes_def event_size_def)
  have first: "relay_loop [] ?w = relay_loop (last ([] # map payload [?d])) ?w1"
    using ok rd wr by (rule relay_deliveries)
  have n: "7 < event_size" by (simp add: event_size_def)
  have "shd (stdin_res ?w1) = RdRet sample_b" and "shd (stdout_res ?w1) = WrRet 7"
    by simp_all
  from relay_write_short [OF this(1) sample_b_len this(2) n, of "last ([] # map payload [?d])"]
  show "main [] ?w =
     Some (1, \<lparr>stdin_res = sconst (RdRet []), stdout_res = sconst (WrRet event_size),
               out_bytes = sample_a @ take 7 sample_b,
               err_lines = [read_event_line sample_a, read_event_line sample_b, Partial_write 7],
               ops = [Op_read event_size, Op_read event_size, Op_log, Op_write 0 event_size,
                      Op_read event_size, Op_log, Op_write 0 event_size, Op_log]\<rparr>)"
    unfolding main_def first by (simp add: start_world_def delivery_ops_def)
next
  show "sample_a @ take 7 sample_b \<noteq> sample_a @ sample_b"
    by (simp add: sample_b_def)
qed

text \<open>
  Claim C7, amended to the calls that fail with \<^verbatim>\<open>EINTR\<close>.  Take any execution from a
  loop head in which events are delivered with any number of reads failing with
  \<^verbatim>\<open>EINTR\<close> before each event and before the end of file, and with the first write of any
  event failing with \<^verbatim>\<open>EINTR\<close> and being completed by the retry loop through further
  \<^verbatim>\<open>EINTR\<close> failures and partial counts.  Then the program returns with status 0; its
  output has gained each event exactly once, in the order read; standard error has gained
  the one line of each event and nothing else, so no interruption is reported; and every
  request issued on the way is well formed: each read, retried or not, asks for a full
  event, and each write asks for all the bytes of the event that are still to be sent.
\<close>

theorem no_skip_no_duplicate_under_interruption:
  assumes "\<forall>d \<in> set ds. delivery_ok d"
    and "stdin_res w =
           concat (map delivery_reads ds) @- replicate m (RdErr EINTR) @- (RdRet [] ## si)"
    and "stdout_res w = concat (map delivery_writes ds) @- so"
  shows "map_option
           (\<lambda>(status, w'). (status, out_bytes w', err_lines w',
                             list_all full_request (drop (length (ops w)) (ops w'))))
           (main ev0 w) =
         Some (0, out_bytes w @ concat (map payload ds),
               err_lines w @ map read_event_line (map payload ds), True)"
  unfolding main_def relay_deliveries_intr_eof [OF assms]
  using deliveries_ops_full [OF assms(1)] by (auto simp: list_all_iff)

theorem no_skip_no_duplicate_under_interruption_witness:
  "map_option
     (\<lambda>(status, w'). (status, out_bytes w', err_lines w',
                       list_all full_request (drop (length []) (ops w'))))
     (main [] (start_world [RdErr EINTR, RdRet sample_a, RdRet sample_b, RdErr EINTR, RdErr EINTR]
              [WrErr EINTR, WrErr EINTR, WrRet 10, WrRet 0, WrRet 100, WrRet 24])) =
   Some (0, sample_a @ sample_b, [read_event_line sample_a, read_event_line sample_b], True)"
proof -
  let ?d = "\<lparr>intr_reads = 1, payload = sample_a,
             wr_path = Retried [WrErr EINTR, WrRet 10, WrRet 0, WrRet 100]\<rparr>"
  let ?w = "start_world [RdErr EINTR, RdRet sample_a, RdRet sample_b, RdErr EINTR, RdErr EINTR]
              [WrErr EINTR, WrErr EINTR, WrRet 10, WrRet 0, WrRet 100, WrRet 24]"
  have ok: "\<forall>d \<in> set [?d, plain sample_b]. delivery_ok d"
    by (simp add: delivery_ok_def plain_def sample_a_len sample_b_len) (simp add: event_size_def)
  have rd: "stdin_res ?w =
      concat (map delivery_reads [?d, plain sample_b])
        @- replicate 2 (RdErr EINTR) @- (RdRet [] ## sconst (RdRet []))"
    by (simp add: start_world_def delivery_reads_def plain_def numeral_2_eq_2
        sconst_unfold [symmetric])
  have wr: "stdout_res ?w =
      concat (map delivery_writes [?d, plain sample_b]) @- sconst (WrRet event_size)"
    by (simp add: start_world_def delivery_writes_def plain_def event_size_def)
  have "ops ?w = []" "out_bytes ?w = []" "err_lines ?w = []"
    by (simp_all add: start_world_def)
  with no_skip_no_duplicate_under_interruption [OF ok rd wr, of "[]"] show ?thesis
    by (simp add: plain_def)
qed

subsection \<open>C8: fatal faults end the program at once\<close>



subsection \<open>C9: one line per event, and the order of the calls\<close>

text \<open>
  Claim C9.  In the same runs without faults, the calls the process issues are, for each
  event in turn, one read of a full event, then one line on standard error, then one write
  of the full event from offset 0, and only then the read of the next event; a last read
  finds the end of file.  Standard error gains exactly one line per event, in the order of
  the events, and the line of an event shows its seconds, microseconds, type, code and
  value as decoded from its bytes.
\<close>

theorem per_record_order_and_diagnostics:
  assumes "\<forall>r \<in> set rs. length r = event_size"
    and "stdin_res w = map RdRet rs @- (RdRet [] ## si)"
    and "stdout_res w = replicate (length rs) (WrRet event_size) @- so"
  shows "map_option (\<lambda>(status, w'). (err_lines w', ops w')) (main ev0 w) =
     Some (err_lines w @
             map (\<lambda>r. Read_event (sint (tv_sec (event_of_bytes r)))
                         (sint (tv_usec (event_of_bytes r)))
                         (uint (ev_type (event_of_bytes r)))
                         (uint (ev_code (event_of_bytes r)))
                         (sint (ev_value (event_of_bytes r)))) rs,
           ops w @
             concat (replicate (length rs) [Op_read event_size, Op_log, Op_write 0 event_size])
             @ [Op_read event_size])"
proof -
  have "read_event_line = (\<lambda>r. Read_event (sint (tv_sec (event_of_bytes r)))
                         (sint (tv_usec (event_of_bytes r)))
                         (uint (ev_type (event_of_bytes r)))
                         (uint (ev_code (event_of_bytes r)))
                         (sint (ev_value (event_of_bytes r))))"
    by (rule ext) (simp add: read_event_line_def Let_def)
  then show ?thesis
    unfolding main_def relay_plain_run [OF assms] by (simp add: plain_ops_def)
qed

theorem per_record_order_and_diagnostics_witness:
  "map_option (\<lambda>(status, w'). (err_lines w', ops w'))
     (main [] (start_world [RdRet sample_a, RdRet sample_b] [])) =
   Some ([Read_event 578437695752307201 1157159078456920585 4625 5139 404166165,
          Read_event (-1) (-1) 65535 65535 (-1)],
         [Op_read 24, Op_log, Op_write 0 24, Op_read 24, Op_log, Op_write 0 24, Op_read 24])"
proof -
  let ?w = "start_world [RdRet sample_a, RdRet sample_b] []"
  have len: "\<forall>r \<in> set [sample_a, sample_b]. length r = event_size"
    by (simp add: sample_a_len sample_b_len)
  have rd: "stdin_res ?w = map RdRet [sample_a, sample_b] @- (RdRet [] ## sconst (RdRet []))"
    by (simp add: start_world_def sconst_unfold [symmetric])
  have wr: "stdout_res ?w =
      replicate (length [sample_a, sample_b]) (WrRet event_size) @- sconst (WrRet event_size)"
    by (simp only: start_world_def world.simps shift.simps shift_replicate_sconst)
  have a: "event_of_bytes sample_a = \<lparr>tv_sec = 578437695752307201, tv_usec = 1157159078456920585,
      ev_type = 4625, ev_code = 5139, ev_value = 404166165\<rparr>"
    by (simp add: sample_a_def event_of_bytes_def le_word_def)
  have b: "event_of_bytes sample_b = \<lparr>tv_sec = - 1, tv_usec = - 1,
      ev_type = 65535, ev_code = 65535, ev_value = - 1\<rparr>"
    by (simp add: sample_b_def event_of_bytes_def le_word_def)
  from per_record_order_and_diagnostics [OF len rd wr, of "[]"] show ?thesis
    by (simp add: start_world_def a b event_size_def)
qed

subsection \<open>C10: termination of the retry loop\<close>

text \<open>
  Claim C10, as stated, fails: "each write either fails with an error or transfers at
  least one byte" does not make the retry loop terminate, because \<^verbatim>\<open>EINTR\<close> is an error
  and the loop answers it by trying again (line 55).  When every write fails with
  \<^verbatim>\<open>EINTR\<close> the loop never returns.
\<close>

theorem retry_loop_stuck_on_eintr:
  "write_retry sample_a 0
     \<lparr>stdin_res = sconst (RdRet []), stdout_res = sconst (WrErr EINTR),
      out_bytes = [], err_lines = [], ops = []\<rparr> = None"
  by (rule write_retry_stalls) simp_all

text \<open>
  Claim C10, amended.  Entered with the count \<open>k\<close>, the retry loop

  \<^item> returns when each of the next \<open>event_size - k\<close> writes either fails with an error
    other than \<^verbatim>\<open>EINTR\<close> or transfers at least one byte;
  \<^item> after a write that fails with \<^verbatim>\<open>EINTR\<close> or returns zero, is in the state it was in
    before, apart from the answer consumed and the call recorded: same count, same
    request, nothing transmitted;
  \<^item> never returns when every write fails with \<^verbatim>\<open>EINTR\<close> or returns zero.
\<close>

theorem retry_loop_termination:
  "((\<forall>i < event_size - k. makes_progress (stdout_res w !! i)) \<longrightarrow>
      (\<exists>y. write_retry ev k w = Some y))
 \<and> (k < event_size \<and> \<not> makes_progress (shd (stdout_res w)) \<longrightarrow>
      write_retry ev k w =
        write_retry ev k (w\<lparr>stdout_res := stl (stdout_res w),
                             ops := ops w @ [Op_write k (event_size - k)]\<rparr>))
 \<and> (k < event_size \<and> (\<forall>i. \<not> makes_progress (stdout_res w !! i)) \<longrightarrow>
      write_retry ev k w = None)"
  using write_retry_terminates [of k w ev] write_retry_stall_step [of k w ev]
    write_retry_stalls [of k w ev]
  by blast

theorem retry_loop_termination_witness:
  "(\<exists>y. write_retry sample_a 0 (start_world [] [WrRet 1, WrRet 23]) = Some y)
 \<and> write_retry sample_a 0 (start_world [] [WrRet 0]) =
     write_retry sample_a 0
       \<lparr>stdin_res = sconst (RdRet []), stdout_res = sconst (WrRet event_size),
        out_bytes = [], err_lines = [], ops = [Op_write 0 24]\<rparr>
 \<and> write_retry sample_a 0
       \<lparr>stdin_res = sconst (RdRet []), stdout_res = sconst (WrRet 0),
        out_bytes = [], err_lines = [], ops = []\<rparr> = None"
proof (intro conjI)
  let ?w = "start_world [] [WrRet 1, WrRet 23]"
  have "\<forall>i < event_size - 0. makes_progress (stdout_res ?w !! i)"
  proof (intro allI impI)
    fix i
    show "makes_progress (stdout_res ?w !! i)"
      by (cases i; cases "i - 1") (simp_all add: start_world_def)
  qed
  with retry_loop_termination [where k = 0 and w = ?w and ev = sample_a]
  show "\<exists>y. write_retry sample_a 0 ?w = Some y" by blast
next
  let ?w = "start_world [] [WrRet 0]"
  have "0 < event_size \<and> \<not> makes_progress (shd (stdout_res ?w))"
    by (simp add: start_world_def)
  with retry_loop_termination [where k = 0 and w = ?w and ev = sample_a]
  show "write_retry sample_a 0 ?w =
     write_retry sample_a 0
       \<lparr>stdin_res = sconst (RdRet []), stdout_res = sconst (WrRet event_size),
        out_bytes = [], err_lines = [], ops = [Op_write 0 24]\<rparr>"
    by (simp add: start_world_def) (simp add: event_size_def)
next
  let ?w = "\<lparr>stdin_res = sconst (RdRet []), stdout_res = sconst (WrRet 0),
        out_bytes = [], err_lines = [], ops = []\<rparr>"
  have "0 < event_size \<and> (\<forall>i. \<not> makes_progress (stdout_res ?w !! i))" by simp
  with retry_loop_termination [where k = 0 and w = ?w and ev = sample_a]
  show "write_retry sample_a 0 ?w = None" by blast
qed

end
